theory Spec2Isabelle
  imports Main
begin

section \<open>The Suno client: HTTP responses, JSON bodies, exceptions\<close>

text \<open>
  The client reads three things of an HTTP response: \<^verbatim>\<open>response.status\<close>,
  \<^verbatim>\<open>await response.text()\<close> and \<^verbatim>\<open>await response.json()\<close>. The JSON body is a
  dictionary; the fields the client interprets (\<^verbatim>\<open>status\<close>, \<^verbatim>\<open>error\<close>, \<^verbatim>\<open>url\<close>)
  hold a string or \<^verbatim>\<open>null\<close>. \<^verbatim>\<open>data.get(key)\<close> is Python's \<^verbatim>\<open>None\<close> both for an
  absent key and for \<^verbatim>\<open>null\<close>.
\<close>

datatype jvalue = JNull | JStr string

type_synonym json = "(string \<times> jvalue) list"

record http_response =
  resp_status :: int
  resp_text :: string
  resp_json :: json

definition dict_get :: "json \<Rightarrow> string \<Rightarrow> string option" where
  "dict_get data key =
     (case map_of data key of
        None \<Rightarrow> None
      | Some JNull \<Rightarrow> None
      | Some (JStr v) \<Rightarrow> Some v)"


text \<open>
  Every failure of the client is a plain \<^verbatim>\<open>Exception(message)\<close>. The operating system
  and the HTTP library raise exceptions of their own, all of them subclasses of
  \<^verbatim>\<open>Exception\<close>.
\<close>

datatype exn =
    Exception string
  | FileNotFoundError string
  | PermissionError string
  | ClientPayloadError

subsection \<open>\<^verbatim>\<open>SunoClient._poll_generation\<close>\<close>










subsection \<open>\<^verbatim>\<open>SunoClient.get_audio_url\<close>\<close>

text \<open>
  The function returns \<^verbatim>\<open>data.get("url")\<close> as it is: a string, or \<^verbatim>\<open>None\<close> when the body
  has no \<^verbatim>\<open>url\<close>.
\<close>

definition get_audio_url :: "http_response \<Rightarrow> exn + string option" where
  "get_audio_url response =
     (if resp_status response \<noteq> 200 then
        Inl (Exception (''Failed to get audio URL: '' @ resp_text response))
      else Inr (dict_get (resp_json response) ''url''))"

subsection \<open>\<^verbatim>\<open>SunoClient.download_audio\<close>\<close>

text \<open>
  The file system: the content of every existing file, and the paths the operating
  system refuses to delete. \<^verbatim>\<open>os.remove\<close> raises \<^verbatim>\<open>FileNotFoundError\<close> for a path that
  does not exist and \<^verbatim>\<open>PermissionError\<close> for one it may not delete.
\<close>

record filesystem =
  files :: "string \<rightharpoonup> string"
  undeletable :: "string set"

definition os_remove :: "string \<Rightarrow> filesystem \<Rightarrow> exn + filesystem" where
  "os_remove path fs =
     (if files fs path = None then Inl (FileNotFoundError path)
      else if path \<in> undeletable fs then Inl (PermissionError path)
      else Inr (fs\<lparr>files := (files fs)(path := None)\<rparr>))"

definition file_write :: "string \<Rightarrow> string \<Rightarrow> filesystem \<Rightarrow> filesystem" where
  "file_write path chunk fs =
     fs\<lparr>files := (files fs)(path \<mapsto> (case files fs path of None \<Rightarrow> chunk | Some old \<Rightarrow> old @ chunk))\<rparr>"

text \<open>
  The response to the download request: its status, its text, the bytes of its body, and
  how many \<^verbatim>\<open>response.content.read\<close> calls the connection survives (\<open>None\<close>: all of
  them). A read on a broken connection raises; any other read returns the next bytes of
  the body, at most as many as asked for, and the empty string at the end of the body.
\<close>

record audio_response =
  dl_status :: int
  dl_text :: string
  dl_content :: string
  dl_reads_ok :: "nat option"

type_synonym stream = "string \<times> nat option"

definition stream_read :: "nat \<Rightarrow> stream \<Rightarrow> exn + (string \<times> stream)" where
  "stream_read n st =
     (case snd st of
        None \<Rightarrow> Inr (take n (fst st), (drop n (fst st), None))
      | Some 0 \<Rightarrow> Inl ClientPayloadError
      | Some (Suc k) \<Rightarrow> Inr (take n (fst st), (drop n (fst st), Some k)))"

text \<open>
  The \<^verbatim>\<open>while True\<close> loop of \<open>download_audio\<close>: read 1024 bytes, stop at the empty
  chunk, write the chunk. The result is the exception that left the loop, if any, the
  chunks written so far and the file system.
\<close>

function write_chunks ::
  "stream \<Rightarrow> string \<Rightarrow> string list \<Rightarrow> filesystem \<Rightarrow> exn option \<times> string list \<times> filesystem"
where
  "write_chunks st path written fs =
     (case stream_read 1024 st of
        Inl e \<Rightarrow> (Some e, written, fs)
      | Inr (chunk, st') \<Rightarrow>
          if chunk = [] then (None, written, fs)
          else write_chunks st' path (written @ [chunk]) (file_write path chunk fs))"
  by pat_completeness auto
termination
proof (relation "measure (\<lambda>(st, path, written, fs). length (fst st))")
  show "wf (measure (\<lambda>(st, path, written, fs). length (fst st)))"
    by simp
next
  fix st :: stream and path :: string and written :: "string list" and fs :: filesystem
    and x2 :: "string \<times> stream" and chunk :: string and st' :: stream
  assume "stream_read 1024 st = Inr x2" and "(chunk, st') = x2" and "chunk \<noteq> []"
  then show "((st', path, written @ [chunk], file_write path chunk fs), (st, path, written, fs))
        \<in> measure (\<lambda>(st, path, written, fs). length (fst st))"
    by (cases st) (auto simp: stream_read_def split: option.splits nat.splits)
qed

declare write_chunks.simps [simp del]

text \<open>
  \<open>tmp\<close> is the path \<^verbatim>\<open>tempfile.mkstemp(suffix=".mp3")\<close> returns: the operating system
  picks it, and creates the file empty. The function has no exception handler: whatever
  the loop raises leaves it as it is.
\<close>

definition download_audio ::
  "audio_response \<Rightarrow> string \<Rightarrow> filesystem \<Rightarrow> (exn + string) \<times> string list \<times> filesystem"
where
  "download_audio response tmp fs =
     (if dl_status response \<noteq> 200 then
        (Inl (Exception (''Failed to download audio: '' @ dl_text response)), [], fs)
      else
        let fs1 = fs\<lparr>files := (files fs)(tmp \<mapsto> [])\<rparr> in
        case write_chunks (dl_content response, dl_reads_ok response) tmp [] fs1 of
          (Some e, written, fs2) \<Rightarrow> (Inl e, written, fs2)
        | (None, written, fs2) \<Rightarrow> (Inr tmp, written, fs2))"

section \<open>The music player\<close>

text \<open>
  A song is the dictionary the commands build: \<^verbatim>\<open>title\<close>, \<^verbatim>\<open>generation_id\<close>,
  \<^verbatim>\<open>file_path\<close>. A voice client is the transport's handle: whether it is connected, and
  the audio sources it was given to play that have not finished. \<^verbatim>\<open>is_playing()\<close> holds
  when there is such a source.
\<close>

record song_info =
  title :: string
  generation_id :: string
  file_path :: string

record voice_client =
  connected :: bool
  sources :: "string list"

definition is_playing :: "voice_client \<Rightarrow> bool" where
  "is_playing vc \<longleftrightarrow> sources vc \<noteq> []"

text \<open>The calls the player makes on the transport, by guild.\<close>

datatype transport_call =
    Connect int
  | Disconnect int
  | StartPlayback int string
  | StopPlayback int

text \<open>
  The player's three dictionaries, keyed by guild id, with the world it acts on: the file
  system, the transport calls made so far and the lines written to the error log.
\<close>

record music_player =
  voice_clients :: "int \<rightharpoonup> voice_client"
  queues :: "int \<rightharpoonup> song_info list"
  current_songs :: "int \<rightharpoonup> song_info"
  fs :: filesystem
  transport :: "transport_call list"
  error_log :: "string list"

definition get_queue :: "int \<Rightarrow> music_player \<Rightarrow> song_info list \<times> music_player" where
  "get_queue guild_id s =
     (case queues s guild_id of
        None \<Rightarrow> ([], s\<lparr>queues := (queues s)(guild_id \<mapsto> [])\<rparr>)
      | Some queue \<Rightarrow> (queue, s))"

definition add_to_queue :: "int \<Rightarrow> song_info \<Rightarrow> music_player \<Rightarrow> music_player" where
  "add_to_queue guild_id song s =
     (let (queue, s1) = get_queue guild_id s in
      s1\<lparr>queues := (queues s1)(guild_id \<mapsto> queue @ [song])\<rparr>)"

definition join_voice_channel :: "int \<Rightarrow> music_player \<Rightarrow> music_player" where
  "join_voice_channel guild_id s =
     (if (case voice_clients s guild_id of None \<Rightarrow> False | Some vc \<Rightarrow> connected vc) then s
      else s\<lparr>voice_clients := (voice_clients s)(guild_id \<mapsto> \<lparr>connected = True, sources = []\<rparr>),
             transport := transport s @ [Connect guild_id]\<rparr>)"

definition leave_voice_channel :: "int \<Rightarrow> music_player \<Rightarrow> music_player" where
  "leave_voice_channel guild_id s =
     (let s1 = (case voice_clients s guild_id of
                  None \<Rightarrow> s
                | Some voice_client \<Rightarrow>
                    let s0 = (if connected voice_client
                              then s\<lparr>transport := transport s @ [Disconnect guild_id]\<rparr>
                              else s)
                    in s0\<lparr>voice_clients := (voice_clients s0)(guild_id := None)\<rparr>);
          s2 = (if queues s1 guild_id \<noteq> None
                then s1\<lparr>queues := (queues s1)(guild_id := None)\<rparr> else s1)
      in if current_songs s2 guild_id \<noteq> None
         then s2\<lparr>current_songs := (current_songs s2)(guild_id := None)\<rparr> else s2)"

definition play :: "int \<Rightarrow> music_player \<Rightarrow> music_player" where
  "play guild_id s =
     (case voice_clients s guild_id of
        None \<Rightarrow> s
      | Some voice_client \<Rightarrow>
          if is_playing voice_client then s
          else
            let (queue, s1) = get_queue guild_id s in
            case queue of
              [] \<Rightarrow> leave_voice_channel guild_id s1
            | song # rest \<Rightarrow>
                s1\<lparr>queues := (queues s1)(guild_id \<mapsto> rest),
                   current_songs := (current_songs s1)(guild_id \<mapsto> song),
                   voice_clients := (voice_clients s1)(guild_id \<mapsto>
                     voice_client\<lparr>sources := sources voice_client @ [file_path song]\<rparr>),
                   transport := transport s1 @ [StartPlayback guild_id (file_path song)]\<rparr>)"

text \<open>What \<^verbatim>\<open>str(e)\<close> prints for an exception.\<close>

definition exn_str :: "exn \<Rightarrow> string" where
  "exn_str e =
     (case e of
        Exception m \<Rightarrow> m
      | FileNotFoundError path \<Rightarrow>
          ''[Errno 2] No such file or directory: '' @ [CHR 0x27] @ path @ [CHR 0x27]
      | PermissionError path \<Rightarrow>
          ''[Errno 13] Permission denied: '' @ [CHR 0x27] @ path @ [CHR 0x27]
      | ClientPayloadError \<Rightarrow> ''Response payload is not completed'')"

text \<open>
  \<open>song_finished\<close> is \<^verbatim>\<open>_song_finished\<close>; \<open>error\<close> is the transport's error, if any. The
  \<^verbatim>\<open>try\<close> around \<^verbatim>\<open>os.remove\<close> catches every exception and logs it.
\<close>

definition song_finished :: "int \<Rightarrow> string option \<Rightarrow> music_player \<Rightarrow> music_player" where
  "song_finished guild_id error s =
     (let s1 = (case error of
                  None \<Rightarrow> s
                | Some e \<Rightarrow> s\<lparr>error_log := error_log s @ [''Error playing song: '' @ e]\<rparr>);
          s2 = (case current_songs s1 guild_id of
                  None \<Rightarrow> s1
                | Some song \<Rightarrow>
                    (case os_remove (file_path song) (fs s1) of
                       Inl e \<Rightarrow> s1\<lparr>error_log := error_log s1 @ [''Error removing temp file: '' @ exn_str e]\<rparr>
                     | Inr fs' \<Rightarrow> s1\<lparr>fs := fs'\<rparr>))
      in play guild_id s2)"

text \<open>
  Decimal digits of a natural number, for the numbering of the queue display.
\<close>

function str_nat :: "nat \<Rightarrow> string" where
  "str_nat n = (if n < 10 then [''0123456789'' ! n] else str_nat (n div 10) @ [''0123456789'' ! (n mod 10)])"
  by pat_completeness auto
termination
  by (relation "measure id") auto

fun up_next :: "nat \<Rightarrow> song_info list \<Rightarrow> string" where
  "up_next i [] = []"
| "up_next i (song # rest) =
     str_nat i @ ''. '' @ title song @ '' (ID: '' @ generation_id song @ '')'' @ [CHR 0x0A]
       @ up_next (Suc i) rest"

text \<open>
  \<open>show_queue\<close> is the \<^verbatim>\<open>queue\<close> command: the message it sends, and the player after it.
  It reads the queue through \<open>get_queue\<close>.
\<close>

definition show_queue :: "int \<Rightarrow> music_player \<Rightarrow> string \<times> music_player" where
  "show_queue guild_id s =
     (let (queue, s1) = get_queue guild_id s in
      if queue = [] \<and> current_songs s1 guild_id = None then (''The queue is empty.'', s1)
      else
        let head = ''**Current Queue**'' @ [CHR 0x0A, CHR 0x0A];
            now = (case current_songs s1 guild_id of
                     None \<Rightarrow> []
                   | Some current_song \<Rightarrow>
                       ''**Now Playing:** '' @ title current_song @ '' (ID: ''
                         @ generation_id current_song @ '')'' @ [CHR 0x0A, CHR 0x0A]);
            next = (if queue \<noteq> [] then ''**Up Next:**'' @ [CHR 0x0A] @ up_next 1 queue
                    else ''**Up Next:** Nothing in queue'')
        in (head @ now @ next, s1))"

subsection \<open>The events of a session\<close>

text \<open>
  What happens to the player, one event at a time: a command joins the caller's voice
  channel; a command that has its audio file adds the song to the queue and calls
  \<open>play\<close>; the transport finishes the source it is playing and runs the callback
  \<open>play\<close> gave it, which is \<open>song_finished\<close>.
\<close>

datatype event =
    Join int
  | Enqueue int song_info
  | Finished int "string option"

definition transport_finished :: "int \<Rightarrow> string option \<Rightarrow> music_player \<Rightarrow> music_player" where
  "transport_finished guild_id error s =
     (case voice_clients s guild_id of
        None \<Rightarrow> s
      | Some vc \<Rightarrow>
          if is_playing vc then
            song_finished guild_id error
              (s\<lparr>voice_clients := (voice_clients s)(guild_id \<mapsto> vc\<lparr>sources := tl (sources vc)\<rparr>)\<rparr>)
          else s)"

fun step :: "music_player \<Rightarrow> event \<Rightarrow> music_player" where
  "step s (Join g) = join_voice_channel g s"
| "step s (Enqueue g song) = play g (add_to_queue g song s)"
| "step s (Finished g error) = transport_finished g error s"

definition run :: "event list \<Rightarrow> music_player \<Rightarrow> music_player" where
  "run evs s = foldl step s evs"

text \<open>The player of \<^verbatim>\<open>MusicPlayer.__init__\<close>: three empty dictionaries.\<close>

definition new_player :: "filesystem \<Rightarrow> music_player" where
  "new_player disk =
     \<lparr>voice_clients = Map.empty, queues = Map.empty, current_songs = Map.empty,
      fs = disk, transport = [], error_log = []\<rparr>"

text \<open>The songs a guild's commands added, the files its transport was told to play, and
  the songs waiting in its queue.\<close>

fun enqueued :: "int \<Rightarrow> event list \<Rightarrow> song_info list" where
  "enqueued g [] = []"
| "enqueued g (Join h # evs) = enqueued g evs"
| "enqueued g (Enqueue h song # evs) = (if h = g then song # enqueued g evs else enqueued g evs)"
| "enqueued g (Finished h error # evs) = enqueued g evs"

fun started :: "int \<Rightarrow> transport_call list \<Rightarrow> string list" where
  "started g [] = []"
| "started g (StartPlayback h path # cs) = (if h = g then path # started g cs else started g cs)"
| "started g (c # cs) = started g cs"

definition pending :: "int \<Rightarrow> music_player \<Rightarrow> song_info list" where
  "pending g s = (case queues s g of None \<Rightarrow> [] | Some queue \<Rightarrow> queue)"

definition now_playing :: "int \<Rightarrow> music_player \<Rightarrow> string list" where
  "now_playing g s = (case voice_clients s g of None \<Rightarrow> [] | Some vc \<Rightarrow> sources vc)"

definition disconnects :: "int \<Rightarrow> transport_call list \<Rightarrow> nat" where
  "disconnects g cs = length (filter (\<lambda>c. c = Disconnect g) cs)"

subsection \<open>Views and invariants\<close>

text \<open>
  The part of the player that says what plays and what waits: the three dictionaries and
  the calls made on the transport.
\<close>

definition player_view ::
  "music_player \<Rightarrow> (int \<rightharpoonup> voice_client) \<times> (int \<rightharpoonup> song_info list) \<times> (int \<rightharpoonup> song_info) \<times> transport_call list"
where
  "player_view s = (voice_clients s, queues s, current_songs s, transport s)"

text \<open>
  The invariant of a guild's session, for the file paths \<open>h\<close> enqueued so far: the
  transport plays at most one source, and the paths started, followed by the paths
  waiting, are \<open>h\<close>.
\<close>

definition fifo_inv :: "int \<Rightarrow> music_player \<Rightarrow> string list \<Rightarrow> bool" where
  "fifo_inv g s h \<longleftrightarrow>
     length (now_playing g s) \<le> 1
     \<and> started g (transport s) @ map file_path (pending g s) = h"

section \<open>Concrete scenarios\<close>





text \<open>A reply to the audio request that is accepted but names no \<^verbatim>\<open>url\<close>.\<close>

definition no_url_reply :: http_response where
  "no_url_reply = \<lparr>resp_status = 200, resp_text = ''{}'', resp_json = [(''id'', JStr ''g1'')]\<rparr>"

text \<open>Disks, songs and players for the scenarios below.\<close>

definition empty_disk :: filesystem where
  "empty_disk = \<lparr>files = Map.empty, undeletable = {}\<rparr>"

definition song_a :: song_info where
  "song_a = \<lparr>title = ''a happy song'', generation_id = ''g1'', file_path = ''/tmp/a.mp3''\<rparr>"

definition song_b :: song_info where
  "song_b = \<lparr>title = ''a sad song'', generation_id = ''g2'', file_path = ''/tmp/b.mp3''\<rparr>"

definition disk_a :: filesystem where
  "disk_a = \<lparr>files = [''/tmp/a.mp3'' \<mapsto> ''ID3'', ''/tmp/b.mp3'' \<mapsto> ''ID3''], undeletable = {}\<rparr>"

text \<open>
  Guild 7 after joining and two enqueues: song a is playing, song b waits.
\<close>

definition playing_a :: music_player where
  "playing_a = run [Join 7, Enqueue 7 song_a, Enqueue 7 song_b] (new_player disk_a)"

text \<open>
  The same player at the moment the transport has finished song a and calls the
  callback; \<open>a_finished_file_lost\<close> is that moment on a disk where the file of song a is
  gone, so that its removal fails. \<open>last_finished\<close> is the moment the only song has
  finished and nothing waits.
\<close>

definition a_finished :: music_player where
  "a_finished = playing_a\<lparr>voice_clients := (voice_clients playing_a)(7 \<mapsto> \<lparr>connected = True, sources = []\<rparr>)\<rparr>"

definition a_finished_file_lost :: music_player where
  "a_finished_file_lost = a_finished\<lparr>fs := empty_disk\<rparr>"

definition last_finished :: music_player where
  "last_finished =
     \<lparr>voice_clients = [7 \<mapsto> \<lparr>connected = True, sources = []\<rparr>], queues = [7 \<mapsto> []],
      current_songs = [7 \<mapsto> song_a], fs = disk_a,
      transport = [Connect 7, StartPlayback 7 ''/tmp/a.mp3''], error_log = []\<rparr>"

text \<open>
  \<open>last_finished_offline\<close> is that last moment for a voice client that is registered
  but no longer connected.
\<close>

definition last_finished_offline :: music_player where
  "last_finished_offline =
     last_finished\<lparr>voice_clients := [7 \<mapsto> \<lparr>connected = False, sources = []\<rparr>]\<rparr>"

text \<open>A session of guild 7: join, two songs, and the first one finishes.\<close>

definition two_songs :: "event list" where
  "two_songs = [Join 7, Enqueue 7 song_a, Enqueue 7 song_b, Finished 7 None]"

text \<open>
  Responses to the download request: one the server refuses, a short body on a healthy
  connection, and a body of 1025 bytes on a connection that breaks after one read.
\<close>

definition failed_download :: audio_response where
  "failed_download = \<lparr>dl_status = 404, dl_text = ''Not Found'', dl_content = [], dl_reads_ok = None\<rparr>"

definition small_download :: audio_response where
  "small_download = \<lparr>dl_status = 200, dl_text = [], dl_content = ''ID3abc'', dl_reads_ok = None\<rparr>"

definition broken_download :: audio_response where
  "broken_download =
     \<lparr>dl_status = 200, dl_text = [], dl_content = replicate 1025 (CHR ''a''), dl_reads_ok = Some 1\<rparr>"

section \<open>Properties of the polling loop\<close>















section \<open>Properties of \<open>get_audio_url\<close>\<close>

lemma get_audio_url_not_200:
  "resp_status r \<noteq> 200 \<Longrightarrow>
   get_audio_url r = Inl (Exception (''Failed to get audio URL: '' @ resp_text r))"
  by (simp add: get_audio_url_def)

text \<open>
  C6. On an accepted response (status 200) whose body has no \<^verbatim>\<open>url\<close> field,
  \<open>get_audio_url\<close> raises nothing: it returns \<^verbatim>\<open>None\<close> as the URL.
\<close>

theorem get_audio_url_missing_url_returns_none:
  "get_audio_url no_url_reply = Inr None"
  by (simp add: get_audio_url_def no_url_reply_def dict_get_def)

section \<open>Properties of the music player\<close>

text \<open>
  C10. For a guild with no registered voice client, \<open>play\<close> returns the player as it
  is: no playback starts (the transport calls are the same), and the queue dictionary and
  the current-song dictionary are unchanged.
\<close>

theorem play_without_voice_client:
  "voice_clients s g = None \<Longrightarrow> play g s = s"
  by (simp add: play_def)

theorem play_without_voice_client_witness:
  "voice_clients (add_to_queue 7 song_a (new_player empty_disk)) 7 = None
   \<and> queues (add_to_queue 7 song_a (new_player empty_disk)) 7 = Some [song_a]
   \<and> play 7 (add_to_queue 7 song_a (new_player empty_disk)) = add_to_queue 7 song_a (new_player empty_disk)"
proof -
  have "voice_clients (add_to_queue 7 song_a (new_player empty_disk)) 7 = None"
    by (simp add: add_to_queue_def get_queue_def new_player_def)
  then show ?thesis
    using play_without_voice_client [of "add_to_queue 7 song_a (new_player empty_disk)" 7]
    by (simp add: add_to_queue_def get_queue_def new_player_def)
qed

text \<open>
  C9, as stated, fails: showing the queue of a guild that has no queue yet inserts an
  empty queue for it, because \<open>show_queue\<close> reads the queue through \<open>get_queue\<close>.
\<close>

theorem show_queue_creates_entry:
  "queues (new_player empty_disk) 7 = None
   \<and> queues (snd (show_queue 7 (new_player empty_disk))) 7 = Some []"
  by (simp add: show_queue_def get_queue_def new_player_def)

text \<open>
  C9, amended. Showing the queue of a guild that has no queue and no current song
  answers that the queue is empty, and leaves the player as it was except for one new
  entry in the queue dictionary: the empty queue of that guild.
\<close>

theorem show_queue_no_session:
  "queues s g = None \<and> current_songs s g = None \<longrightarrow>
     show_queue g s = (''The queue is empty.'', s\<lparr>queues := (queues s)(g \<mapsto> [])\<rparr>)"
  by (simp add: show_queue_def get_queue_def)

theorem show_queue_no_session_witness:
  "show_queue 7 (new_player empty_disk) =
     (''The queue is empty.'', (new_player empty_disk)\<lparr>queues := [7 \<mapsto> []]\<rparr>)"
  using show_queue_no_session [of "new_player empty_disk" 7]
  by (simp add: new_player_def)

text \<open>
  In every state, \<open>show_queue\<close> leaves the voice clients, the current songs and the other
  guilds' queues alone, and changes nothing when the guild has a queue.
\<close>

lemma show_queue_frame:
  "voice_clients (snd (show_queue g s)) = voice_clients s
   \<and> current_songs (snd (show_queue g s)) = current_songs s
   \<and> (\<forall>h. h \<noteq> g \<longrightarrow> queues (snd (show_queue g s)) h = queues s h)
   \<and> (queues s g \<noteq> None \<longrightarrow> snd (show_queue g s) = s)"
  by (auto simp add: show_queue_def get_queue_def Let_def split: option.splits)

text \<open>
  What \<open>leave_voice_channel\<close> does: it removes the guild from the three dictionaries,
  calls the transport's disconnect when the voice client is connected, and touches
  neither the disk nor the log. Leaving twice is leaving once.
\<close>

lemma leave_voice_channel_maps:
  "voice_clients (leave_voice_channel g s) = (voice_clients s)(g := None)"
  "queues (leave_voice_channel g s) = (queues s)(g := None)"
  "current_songs (leave_voice_channel g s) = (current_songs s)(g := None)"
  "fs (leave_voice_channel g s) = fs s"
  "error_log (leave_voice_channel g s) = error_log s"
  "transport (leave_voice_channel g s) =
     transport s @ (case voice_clients s g of None \<Rightarrow> [] | Some vc \<Rightarrow> if connected vc then [Disconnect g] else [])"
  by (auto simp add: leave_voice_channel_def Let_def split: option.splits)

lemma leave_voice_channel_twice:
  "leave_voice_channel g (leave_voice_channel g s) = leave_voice_channel g s"
  by (rule music_player.equality) (simp_all add: leave_voice_channel_maps)

text \<open>
  C4. While song a is playing for guild 7, \<open>leave_voice_channel\<close> forgets the current
  song and leaves its temporary file on the disk.
\<close>

theorem leave_keeps_temp_file:
  "current_songs playing_a 7 = Some song_a
   \<and> files (fs playing_a) ''/tmp/a.mp3'' = Some ''ID3''
   \<and> current_songs (leave_voice_channel 7 playing_a) 7 = None
   \<and> files (fs (leave_voice_channel 7 playing_a)) ''/tmp/a.mp3'' = Some ''ID3''"
  by (simp add: leave_voice_channel_maps)
    (simp add: playing_a_def run_def join_voice_channel_def add_to_queue_def get_queue_def play_def
      is_playing_def new_player_def disk_a_def song_a_def)

lemma get_queue_pending: "fst (get_queue g s) = pending g s"
  by (simp add: get_queue_def pending_def split: option.splits)

lemma play_idle_empty:
  assumes "voice_clients s g = Some vc" and "\<not> is_playing vc" and "pending g s = []"
  shows "play g s = leave_voice_channel g s"
proof (cases "queues s g")
  case None
  have "leave_voice_channel g (s\<lparr>queues := (queues s)(g \<mapsto> [])\<rparr>) = leave_voice_channel g s"
    by (rule music_player.equality) (simp_all add: leave_voice_channel_maps)
  with None assms show ?thesis
    by (simp add: play_def get_queue_def)
next
  case (Some q)
  with assms show ?thesis
    by (simp add: play_def get_queue_def pending_def)
qed

text \<open>
  \<open>play\<close> reads nothing but the three dictionaries, and what it does to them and to the
  transport does not depend on the disk or the log.
\<close>

lemma play_player_view:
  assumes "player_view s = player_view t"
  shows "player_view (play g s) = player_view (play g t)"
proof -
  from assms have eqs: "voice_clients s = voice_clients t" "queues s = queues t"
    "current_songs s = current_songs t" "transport s = transport t"
    by (simp_all add: player_view_def)
  show ?thesis
  proof (cases "voice_clients t g")
    case None
    with eqs show ?thesis by (simp add: play_def player_view_def)
  next
    case (Some vc)
    show ?thesis
    proof (cases "is_playing vc")
      case True
      with Some eqs show ?thesis by (simp add: play_def player_view_def)
    next
      case False
      show ?thesis
      proof (cases "pending g t")
        case Nil
        then have "pending g s = []" using eqs by (simp add: pending_def)
        with Nil Some False eqs show ?thesis
          by (simp add: play_idle_empty player_view_def leave_voice_channel_maps)
      next
        case (Cons song rest)
        then have "queues t g = Some (song # rest)" "queues s g = Some (song # rest)"
          using eqs by (simp_all add: pending_def split: option.splits)
        with Some False eqs show ?thesis
          by (simp add: play_def get_queue_def player_view_def)
      qed
    qed
  qed
qed

lemma song_finished_player_view:
  "player_view (song_finished g err s) = player_view (play g s)"
  unfolding song_finished_def Let_def
  by (rule play_player_view) (simp add: player_view_def split: option.splits sum.splits)

lemma play_keeps_disk_and_log:
  "fs (play g s) = fs s \<and> error_log (play g s) = error_log s"
  by (simp add: play_def get_queue_def leave_voice_channel_maps Let_def
      split: option.splits list.splits)

lemma song_finished_idle_empty:
  assumes "voice_clients s g = Some vc" and "\<not> is_playing vc" and "pending g s = []"
  shows "player_view (song_finished g err s) = player_view (leave_voice_channel g s)"
proof -
  from assms have "play g s = leave_voice_channel g s"
    by (rule play_idle_empty)
  then show ?thesis
    by (simp add: song_finished_player_view)
qed

text \<open>
  C5, as stated, fails: when the only song has finished for a voice client that is
  registered but no longer connected, the callback removes the guild from the three
  dictionaries and calls the transport's disconnect not once but never, because
  \<open>leave_voice_channel\<close> disconnects only a connected client.
\<close>

theorem song_finished_offline_never_disconnects:
  "voice_clients last_finished_offline 7 = Some \<lparr>connected = False, sources = []\<rparr>
   \<and> pending 7 last_finished_offline = []
   \<and> voice_clients (song_finished 7 None last_finished_offline) 7 = None
   \<and> transport (song_finished 7 None last_finished_offline) =
       [Connect 7, StartPlayback 7 ''/tmp/a.mp3'']
   \<and> disconnects 7 (transport (song_finished 7 None last_finished_offline)) = 0"
proof -
  have vc: "voice_clients last_finished_offline 7 = Some \<lparr>connected = False, sources = []\<rparr>"
    by (simp add: last_finished_offline_def)
  have idle: "\<not> is_playing \<lparr>connected = False, sources = []\<rparr>"
    by (simp add: is_playing_def)
  have empty: "pending 7 last_finished_offline = []"
    by (simp add: last_finished_offline_def last_finished_def pending_def)
  have tr: "transport last_finished_offline = [Connect 7, StartPlayback 7 ''/tmp/a.mp3'']"
    by (simp add: last_finished_offline_def last_finished_def)
  from song_finished_idle_empty [OF vc idle empty, of None]
  have "voice_clients (song_finished 7 None last_finished_offline) 7 = None"
    and "transport (song_finished 7 None last_finished_offline) =
       [Connect 7, StartPlayback 7 ''/tmp/a.mp3'']"
    by (simp_all add: player_view_def leave_voice_channel_maps vc tr)
  with vc empty show ?thesis
    by (simp add: disconnects_def)
qed

text \<open>
  C5, amended. When the callback runs for a guild whose voice client has finished its
  source, and nothing waits in the guild's queue, the guild is gone from the voice
  clients, the queues and the current songs afterwards, and the transport's disconnect
  is called exactly once if the voice client is connected, and not at all if it is not.
\<close>

theorem song_finished_empty_queue_tears_down:
  "voice_clients s g = Some vc \<and> \<not> is_playing vc \<and> pending g s = [] \<longrightarrow>
     voice_clients (song_finished g err s) g = None
     \<and> queues (song_finished g err s) g = None
     \<and> current_songs (song_finished g err s) g = None
     \<and> transport (song_finished g err s) =
         transport s @ (if connected vc then [Disconnect g] else [])
     \<and> disconnects g (transport (song_finished g err s)) =
         disconnects g (transport s) + (if connected vc then 1 else 0)"
proof
  assume h: "voice_clients s g = Some vc \<and> \<not> is_playing vc \<and> pending g s = []"
  then have "player_view (song_finished g err s) = player_view (leave_voice_channel g s)"
    by (simp add: song_finished_idle_empty)
  with h show "voice_clients (song_finished g err s) g = None
     \<and> queues (song_finished g err s) g = None
     \<and> current_songs (song_finished g err s) g = None
     \<and> transport (song_finished g err s) =
         transport s @ (if connected vc then [Disconnect g] else [])
     \<and> disconnects g (transport (song_finished g err s)) =
         disconnects g (transport s) + (if connected vc then 1 else 0)"
    by (simp add: player_view_def leave_voice_channel_maps disconnects_def)
qed

theorem song_finished_empty_queue_tears_down_witness:
  "voice_clients (song_finished 7 None last_finished) 7 = None
   \<and> queues (song_finished 7 None last_finished) 7 = None
   \<and> current_songs (song_finished 7 None last_finished) 7 = None
   \<and> transport (song_finished 7 None last_finished) =
       [Connect 7, StartPlayback 7 ''/tmp/a.mp3'', Disconnect 7]
   \<and> disconnects 7 (transport (song_finished 7 None last_finished)) = 1
   \<and> voice_clients (song_finished 7 None last_finished_offline) 7 = None
   \<and> queues (song_finished 7 None last_finished_offline) 7 = None
   \<and> current_songs (song_finished 7 None last_finished_offline) 7 = None
   \<and> transport (song_finished 7 None last_finished_offline) =
       [Connect 7, StartPlayback 7 ''/tmp/a.mp3'']
   \<and> disconnects 7 (transport (song_finished 7 None last_finished_offline)) = 0"
  using song_finished_empty_queue_tears_down
    [of last_finished 7 "\<lparr>connected = True, sources = []\<rparr>" None]
    song_finished_empty_queue_tears_down
    [of last_finished_offline 7 "\<lparr>connected = False, sources = []\<rparr>" None]
  by (simp add: last_finished_offline_def last_finished_def is_playing_def pending_def
      disconnects_def)

text \<open>
  C8. What the callback does to the dictionaries and the transport is what \<open>play\<close>
  does, whatever the disk holds: two players that agree on the dictionaries and the
  transport calls agree on them after the callback, whether the removal of the finished
  file succeeds or fails. A removal that fails raises nothing: the disk is unchanged, and
  the log gets one line with the exception.
\<close>

theorem song_finished_ignores_removal_failure:
  "(player_view s = player_view t \<longrightarrow>
      player_view (song_finished g err s) = player_view (song_finished g err t))
   \<and> player_view (song_finished g err s) = player_view (play g s)
   \<and> (current_songs s g = Some song \<and> os_remove (file_path song) (fs s) = Inl e \<longrightarrow>
        fs (song_finished g err s) = fs s
        \<and> error_log (song_finished g err s) =
            error_log s @ (case err of None \<Rightarrow> [] | Some m \<Rightarrow> [''Error playing song: '' @ m])
              @ [''Error removing temp file: '' @ exn_str e])"
proof (intro conjI impI)
  assume "player_view s = player_view t"
  then have "player_view (play g s) = player_view (play g t)"
    by (rule play_player_view)
  then show "player_view (song_finished g err s) = player_view (song_finished g err t)"
    by (simp only: song_finished_player_view)
next
  show "player_view (song_finished g err s) = player_view (play g s)"
    by (rule song_finished_player_view)
next
  assume h: "current_songs s g = Some song \<and> os_remove (file_path song) (fs s) = Inl e"
  then show "fs (song_finished g err s) = fs s"
    by (cases err) (simp_all add: song_finished_def play_keeps_disk_and_log)
  from h show "error_log (song_finished g err s) =
      error_log s @ (case err of None \<Rightarrow> [] | Some m \<Rightarrow> [''Error playing song: '' @ m])
        @ [''Error removing temp file: '' @ exn_str e]"
    by (cases err) (simp_all add: song_finished_def play_keeps_disk_and_log)
qed

lemma a_finished_fields:
  "voice_clients a_finished = [7 \<mapsto> \<lparr>connected = True, sources = []\<rparr>]"
  "queues a_finished = [7 \<mapsto> [song_b]]"
  "current_songs a_finished = [7 \<mapsto> song_a]"
  "transport a_finished = [Connect 7, StartPlayback 7 ''/tmp/a.mp3'']"
  "fs a_finished = disk_a"
  "error_log a_finished = []"
  by (simp_all add: a_finished_def playing_a_def run_def join_voice_channel_def add_to_queue_def
      get_queue_def play_def is_playing_def new_player_def song_a_def)

theorem song_finished_ignores_removal_failure_witness:
  "player_view (song_finished 7 None a_finished_file_lost) = player_view (song_finished 7 None a_finished)
   \<and> transport (song_finished 7 None a_finished_file_lost) =
       [Connect 7, StartPlayback 7 ''/tmp/a.mp3'', StartPlayback 7 ''/tmp/b.mp3'']
   \<and> fs (song_finished 7 None a_finished_file_lost) = empty_disk
   \<and> error_log (song_finished 7 None a_finished_file_lost) =
       [''Error removing temp file: [Errno 2] No such file or directory: ''
          @ [CHR 0x27] @ ''/tmp/a.mp3'' @ [CHR 0x27]]"
proof -
  have same: "player_view a_finished_file_lost = player_view a_finished"
    by (simp add: a_finished_file_lost_def player_view_def)
  have cur: "current_songs a_finished_file_lost 7 = Some song_a"
    by (simp add: a_finished_file_lost_def a_finished_fields)
  have rm: "os_remove (file_path song_a) (fs a_finished_file_lost) = Inl (FileNotFoundError ''/tmp/a.mp3'')"
    by (simp add: a_finished_file_lost_def os_remove_def empty_disk_def song_a_def)
  have tr: "transport (play 7 a_finished_file_lost) =
      [Connect 7, StartPlayback 7 ''/tmp/a.mp3'', StartPlayback 7 ''/tmp/b.mp3'']"
    by (simp add: a_finished_file_lost_def play_def get_queue_def is_playing_def a_finished_fields song_b_def)
  show ?thesis
    using song_finished_ignores_removal_failure
      [of a_finished_file_lost a_finished 7 None song_a "FileNotFoundError ''/tmp/a.mp3''"]
      same cur rm tr
    by (auto simp add: player_view_def exn_str_def a_finished_file_lost_def a_finished_fields)
qed

section \<open>Playback order\<close>

lemma started_append: "started g (xs @ ys) = started g xs @ started g ys"
proof (induction xs)
  case Nil
  then show ?case by simp
next
  case (Cons c cs)
  then show ?case by (cases c) simp_all
qed

lemma leave_fifo_inv:
  assumes "fifo_inv g s h" and "pending g' s = []"
  shows "fifo_inv g (leave_voice_channel g' s) h"
proof (cases "g' = g")
  case True
  with assms show ?thesis
    by (simp add: fifo_inv_def now_playing_def pending_def leave_voice_channel_maps started_append
        split: option.splits)
next
  case False
  with assms show ?thesis
    by (simp add: fifo_inv_def now_playing_def pending_def leave_voice_channel_maps started_append
        split: option.splits)
qed

lemma play_fifo_inv:
  assumes "fifo_inv g s h"
  shows "fifo_inv g (play g' s) h"
proof (cases "voice_clients s g'")
  case None
  with assms show ?thesis by (simp add: play_def)
next
  case (Some vc)
  show ?thesis
  proof (cases "is_playing vc")
    case True
    with Some assms show ?thesis by (simp add: play_def)
  next
    case False
    show ?thesis
    proof (cases "pending g' s")
      case Nil
      with Some False have "play g' s = leave_voice_channel g' s"
        by (simp add: play_idle_empty)
      with assms Nil show ?thesis
        by (simp add: leave_fifo_inv)
    next
      case (Cons song rest)
      then have q: "queues s g' = Some (song # rest)"
        by (simp add: pending_def split: option.splits)
      from False have idle: "sources vc = []"
        by (simp add: is_playing_def)
      show ?thesis
      proof (cases "g' = g")
        case True
        with assms Some False q idle show ?thesis
          by (simp add: play_def get_queue_def fifo_inv_def now_playing_def pending_def started_append)
      next
        case False
        with assms Some \<open>\<not> is_playing vc\<close> q show ?thesis
          by (simp add: play_def get_queue_def fifo_inv_def now_playing_def pending_def started_append)
      qed
    qed
  qed
qed

lemma add_to_queue_fifo_inv:
  assumes "fifo_inv g s h"
  shows "fifo_inv g (add_to_queue g' song s) (h @ map file_path (enqueued g [Enqueue g' song]))"
  using assms
  by (auto simp add: add_to_queue_def get_queue_def fifo_inv_def now_playing_def pending_def
      split: option.splits)

lemma join_fifo_inv:
  assumes "fifo_inv g s h"
  shows "fifo_inv g (join_voice_channel g' s) h"
  using assms
  by (auto simp add: join_voice_channel_def fifo_inv_def now_playing_def pending_def started_append
      split: option.splits)

lemma fifo_inv_player_view:
  assumes "player_view s = player_view t"
  shows "fifo_inv g s h = fifo_inv g t h"
  using assms by (simp add: player_view_def fifo_inv_def now_playing_def pending_def)

lemma song_finished_fifo_inv:
  assumes "fifo_inv g s h"
  shows "fifo_inv g (song_finished g' err s) h"
  using assms play_fifo_inv [of g s h g']
    fifo_inv_player_view [OF song_finished_player_view, of g g' err s h]
  by simp

lemma transport_finished_fifo_inv:
  assumes "fifo_inv g s h"
  shows "fifo_inv g (transport_finished g' err s) h"
proof (cases "voice_clients s g'")
  case None
  with assms show ?thesis by (simp add: transport_finished_def)
next
  case (Some vc)
  show ?thesis
  proof (cases "is_playing vc")
    case False
    with Some assms show ?thesis by (simp add: transport_finished_def)
  next
    case True
    have "fifo_inv g (s\<lparr>voice_clients := (voice_clients s)(g' \<mapsto> vc\<lparr>sources := tl (sources vc)\<rparr>)\<rparr>) h"
      using assms Some by (auto simp add: fifo_inv_def now_playing_def pending_def)
    then show ?thesis
      using Some True by (simp add: transport_finished_def song_finished_fifo_inv)
  qed
qed

lemma step_fifo_inv:
  assumes "fifo_inv g s h"
  shows "fifo_inv g (step s e) (h @ map file_path (enqueued g [e]))"
proof (cases e)
  case (Join g')
  with assms show ?thesis by (simp add: join_fifo_inv)
next
  case (Enqueue g' song)
  then show ?thesis
    using play_fifo_inv [OF add_to_queue_fifo_inv [OF assms, of g' song], of g'] by simp
next
  case (Finished g' err)
  with assms show ?thesis by (simp add: transport_finished_fifo_inv)
qed

lemma enqueued_append: "enqueued g (xs @ ys) = enqueued g xs @ enqueued g ys"
proof (induction xs)
  case Nil
  then show ?case by simp
next
  case (Cons e es)
  then show ?case by (cases e) simp_all
qed

lemma run_fifo_inv:
  assumes "fifo_inv g s h"
  shows "fifo_inv g (run evs s) (h @ map file_path (enqueued g evs))"
proof (induction evs rule: rev_induct)
  case Nil
  with assms show ?case by (simp add: run_def)
next
  case (snoc e evs)
  have "run (evs @ [e]) s = step (run evs s) e"
    by (simp add: run_def)
  with step_fifo_inv [OF snoc.IH, of e] show ?case
    by (simp add: enqueued_append)
qed

text \<open>
  C1. After any sequence of joins, enqueues and finished sources on a new player, the
  transport of every guild plays at most one source, and the file paths whose playback
  was started for the guild, in the order of the start calls, followed by the file paths
  still waiting in its queue, are the file paths enqueued for the guild, in the order of
  the enqueues: \<open>add_to_queue\<close> appends at the tail, \<open>play\<close> starts the head.
\<close>

theorem playback_is_single_and_fifo:
  "length (now_playing g (run evs (new_player disk))) \<le> 1
   \<and> started g (transport (run evs (new_player disk)))
       @ map file_path (pending g (run evs (new_player disk)))
     = map file_path (enqueued g evs)"
proof -
  have "fifo_inv g (new_player disk) []"
    by (simp add: fifo_inv_def new_player_def now_playing_def pending_def)
  from run_fifo_inv [OF this, of evs] show ?thesis
    by (simp add: fifo_inv_def)
qed

lemma run_two_songs:
  "transport (run two_songs (new_player disk_a)) =
     [Connect 7, StartPlayback 7 ''/tmp/a.mp3'', StartPlayback 7 ''/tmp/b.mp3'']"
  "now_playing 7 (run two_songs (new_player disk_a)) = [''/tmp/b.mp3'']"
  by (simp_all add: two_songs_def run_def join_voice_channel_def add_to_queue_def get_queue_def
      play_def transport_finished_def song_finished_def os_remove_def is_playing_def
      new_player_def now_playing_def disk_a_def song_a_def song_b_def)

theorem playback_is_single_and_fifo_witness:
  "length (now_playing 7 (run two_songs (new_player disk_a))) \<le> 1
   \<and> started 7 (transport (run two_songs (new_player disk_a))) = [''/tmp/a.mp3'', ''/tmp/b.mp3'']
   \<and> pending 7 (run two_songs (new_player disk_a)) = []"
  using playback_is_single_and_fifo [of 7 two_songs disk_a]
  by (simp add: run_two_songs) (simp add: two_songs_def song_a_def song_b_def)

section \<open>Properties of \<open>download_audio\<close>\<close>

lemma files_update_same:
  "files d path = Some old \<Longrightarrow> d\<lparr>files := (files d)(path \<mapsto> old)\<rparr> = d"
  by (simp add: map_upd_triv)

lemma file_write_existing:
  "files d path = Some old \<Longrightarrow>
   file_write path chunk d = d\<lparr>files := (files d)(path \<mapsto> old @ chunk)\<rparr>"
  by (simp add: file_write_def)

text \<open>
  On a connection that does not break, the loop appends the whole body to the file, in
  chunks that are not empty and hold at most 1024 bytes.
\<close>

lemma write_chunks_healthy:
  "snd st = None \<Longrightarrow> files d path = Some old \<Longrightarrow>
   \<exists>ws. write_chunks st path written d =
          (None, written @ ws, d\<lparr>files := (files d)(path \<mapsto> old @ fst st)\<rparr>)
        \<and> concat ws = fst st \<and> (\<forall>c\<in>set ws. c \<noteq> [] \<and> length c \<le> 1024)"
proof (induction st path written d arbitrary: old rule: write_chunks.induct)
  case (1 st path written d)
  obtain content where st: "st = (content, None)"
    using "1.prems"(1) by (cases st) simp
  have rd: "stream_read 1024 st = Inr (take 1024 content, (drop 1024 content, None))"
    by (simp add: st stream_read_def)
  show ?case
  proof (cases "take 1024 content = []")
    case True
    then have empty: "fst st = []" by (simp add: st)
    have w: "write_chunks st path written d = (None, written, d)"
      using True rd by (subst write_chunks.simps) simp
    have e: "d\<lparr>files := (files d)(path \<mapsto> old)\<rparr> = d"
      using "1.prems"(2) by (rule files_update_same)
    have "write_chunks st path written d =
            (None, written @ [], d\<lparr>files := (files d)(path \<mapsto> old @ fst st)\<rparr>)
          \<and> concat [] = fst st \<and> (\<forall>c\<in>set ([] :: string list). c \<noteq> [] \<and> length c \<le> 1024)"
      by (simp only: w empty append_Nil2 e) simp
    then show ?thesis by (rule exI)
  next
    case False
    let ?chunk = "take 1024 content"
    let ?d' = "file_write path ?chunk d"
    have d': "?d' = d\<lparr>files := (files d)(path \<mapsto> old @ ?chunk)\<rparr>"
      using "1.prems"(2) by (rule file_write_existing)
    then have f': "files ?d' path = Some (old @ ?chunk)" by simp
    have s': "snd (drop 1024 content, (None :: nat option)) = None" by simp
    from "1.IH" [OF rd refl False s' f']
    obtain ws where run: "write_chunks (drop 1024 content, None) path (written @ [?chunk]) ?d' =
            (None, (written @ [?chunk]) @ ws,
             ?d'\<lparr>files := (files ?d')(path \<mapsto> (old @ ?chunk) @ fst (drop 1024 content, (None :: nat option)))\<rparr>)"
        and cat: "concat ws = fst (drop 1024 content, (None :: nat option))"
        and small: "\<forall>c\<in>set ws. c \<noteq> [] \<and> length c \<le> 1024"
      by blast
    have whole: "(old @ ?chunk) @ fst (drop 1024 content, (None :: nat option)) = old @ fst st"
      by (simp add: st)
    have disk: "?d'\<lparr>files := (files ?d')(path \<mapsto> old @ fst st)\<rparr> =
                d\<lparr>files := (files d)(path \<mapsto> old @ fst st)\<rparr>"
      by (simp add: d')
    have "write_chunks st path written d =
          write_chunks (drop 1024 content, None) path (written @ [?chunk]) ?d'"
      using rd False by (subst write_chunks.simps) simp
    also have "\<dots> = (None, written @ (?chunk # ws), d\<lparr>files := (files d)(path \<mapsto> old @ fst st)\<rparr>)"
      by (simp only: run whole disk) simp
    finally have "write_chunks st path written d =
        (None, written @ (?chunk # ws), d\<lparr>files := (files d)(path \<mapsto> old @ fst st)\<rparr>)" .
    moreover have "concat (?chunk # ws) = fst st"
      using cat by (simp add: st)
    moreover have "\<forall>c\<in>set (?chunk # ws). c \<noteq> [] \<and> length c \<le> 1024"
      using small False by simp
    ultimately show ?thesis by blast
  qed
qed

text \<open>
  On a connection that breaks after \<open>k\<close> reads, before the body is through, the loop
  leaves with the exception of the failing read; the \<open>k\<close> chunks written before stay in
  the file.
\<close>

lemma write_chunks_broken:
  "snd st = Some k \<Longrightarrow> k * 1024 < length (fst st) \<Longrightarrow> files d path = Some old \<Longrightarrow>
   \<exists>ws. write_chunks st path written d =
          (Some ClientPayloadError, written @ ws,
           d\<lparr>files := (files d)(path \<mapsto> old @ take (k * 1024) (fst st))\<rparr>)
        \<and> concat ws = take (k * 1024) (fst st) \<and> length ws = k"
proof (induction k arbitrary: st written d old)
  case 0
  then have "stream_read 1024 st = Inl ClientPayloadError"
    by (simp add: stream_read_def)
  then have w: "write_chunks st path written d = (Some ClientPayloadError, written, d)"
    by (subst write_chunks.simps) simp
  have e: "d\<lparr>files := (files d)(path \<mapsto> old)\<rparr> = d"
    using "0.prems"(3) by (rule files_update_same)
  have "write_chunks st path written d =
          (Some ClientPayloadError, written @ [],
           d\<lparr>files := (files d)(path \<mapsto> old @ take (0 * 1024) (fst st))\<rparr>)
        \<and> concat [] = take (0 * 1024) (fst st) \<and> length ([] :: string list) = 0"
    by (simp add: w e)
  then show ?case by (rule exI)
next
  case (Suc k)
  obtain content where st: "st = (content, Some (Suc k))"
    using Suc.prems(1) by (cases st) simp
  let ?chunk = "take 1024 content"
  let ?rest = "(drop 1024 content, Some k)"
  let ?d' = "file_write path ?chunk d"
  from Suc.prems(2) have long: "1024 + k * 1024 < length content"
    by (simp add: st)
  then have nonempty: "?chunk \<noteq> []" by auto
  have rd: "stream_read 1024 st = Inr (?chunk, ?rest)"
    by (simp add: st stream_read_def)
  have d': "?d' = d\<lparr>files := (files d)(path \<mapsto> old @ ?chunk)\<rparr>"
    using Suc.prems(3) by (rule file_write_existing)
  then have f': "files ?d' path = Some (old @ ?chunk)" by simp
  have r1: "snd ?rest = Some k" by simp
  have r2: "k * 1024 < length (fst ?rest)" using long by simp
  from Suc.IH [OF r1 r2 f']
  obtain ws where run: "write_chunks ?rest path (written @ [?chunk]) ?d' =
        (Some ClientPayloadError, (written @ [?chunk]) @ ws,
         ?d'\<lparr>files := (files ?d')(path \<mapsto> (old @ ?chunk) @ take (k * 1024) (fst ?rest))\<rparr>)"
      and cat: "concat ws = take (k * 1024) (fst ?rest)"
      and len: "length ws = k"
    by blast
  have part: "?chunk @ take (k * 1024) (fst ?rest) = take (Suc k * 1024) (fst st)"
    by (simp add: st take_add [symmetric])
  then have whole: "(old @ ?chunk) @ take (k * 1024) (fst ?rest) = old @ take (Suc k * 1024) (fst st)"
    by simp
  have disk: "?d'\<lparr>files := (files ?d')(path \<mapsto> old @ take (Suc k * 1024) (fst st))\<rparr> =
              d\<lparr>files := (files d)(path \<mapsto> old @ take (Suc k * 1024) (fst st))\<rparr>"
    by (simp add: d')
  have "write_chunks st path written d = write_chunks ?rest path (written @ [?chunk]) ?d'"
    using rd nonempty by (subst write_chunks.simps) simp
  also have "\<dots> = (Some ClientPayloadError, written @ (?chunk # ws),
      d\<lparr>files := (files d)(path \<mapsto> old @ take (Suc k * 1024) (fst st))\<rparr>)"
    by (simp only: run whole disk) simp
  finally have "write_chunks st path written d =
      (Some ClientPayloadError, written @ (?chunk # ws),
       d\<lparr>files := (files d)(path \<mapsto> old @ take (Suc k * 1024) (fst st))\<rparr>)" .
  moreover have "concat (?chunk # ws) = take (Suc k * 1024) (fst st)"
    using cat part by simp
  moreover have "length (?chunk # ws) = Suc k"
    using len by simp
  ultimately show ?case by blast
qed

lemma download_audio_rejected:
  "dl_status r \<noteq> 200 \<Longrightarrow>
   download_audio r tmp d = (Inl (Exception (''Failed to download audio: '' @ dl_text r)), [], d)"
  by (simp add: download_audio_def)

lemma download_audio_complete:
  assumes "dl_status r = 200" and "dl_reads_ok r = None"
  shows "\<exists>ws. download_audio r tmp d = (Inr tmp, ws, d\<lparr>files := (files d)(tmp \<mapsto> dl_content r)\<rparr>)
           \<and> concat ws = dl_content r \<and> (\<forall>c\<in>set ws. c \<noteq> [] \<and> length c \<le> 1024)"
proof -
  let ?d1 = "d\<lparr>files := (files d)(tmp \<mapsto> [])\<rparr>"
  have "snd (dl_content r, dl_reads_ok r) = None" "files ?d1 tmp = Some []"
    using assms(2) by simp_all
  from write_chunks_healthy [OF this, of "[]"]
  obtain ws where run: "write_chunks (dl_content r, dl_reads_ok r) tmp [] ?d1 =
        (None, [] @ ws, ?d1\<lparr>files := (files ?d1)(tmp \<mapsto> [] @ fst (dl_content r, dl_reads_ok r))\<rparr>)"
      and rest: "concat ws = fst (dl_content r, dl_reads_ok r)" "\<forall>c\<in>set ws. c \<noteq> [] \<and> length c \<le> 1024"
    by blast
  have "download_audio r tmp d = (Inr tmp, ws, d\<lparr>files := (files d)(tmp \<mapsto> dl_content r)\<rparr>)"
    using assms(1) by (simp add: download_audio_def run)
  with rest show ?thesis by auto
qed

lemma download_audio_interrupted:
  assumes "dl_status r = 200" and "dl_reads_ok r = Some k" and "k * 1024 < length (dl_content r)"
  shows "\<exists>ws. download_audio r tmp d =
           (Inl ClientPayloadError, ws, d\<lparr>files := (files d)(tmp \<mapsto> take (k * 1024) (dl_content r))\<rparr>)
           \<and> concat ws = take (k * 1024) (dl_content r) \<and> length ws = k"
proof -
  let ?d1 = "d\<lparr>files := (files d)(tmp \<mapsto> [])\<rparr>"
  have "snd (dl_content r, dl_reads_ok r) = Some k" "k * 1024 < length (fst (dl_content r, dl_reads_ok r))"
    "files ?d1 tmp = Some []"
    using assms(2,3) by simp_all
  from write_chunks_broken [OF this, of "[]"]
  obtain ws where run: "write_chunks (dl_content r, dl_reads_ok r) tmp [] ?d1 =
        (Some ClientPayloadError, [] @ ws,
         ?d1\<lparr>files := (files ?d1)(tmp \<mapsto> [] @ take (k * 1024) (fst (dl_content r, dl_reads_ok r)))\<rparr>)"
      and rest: "concat ws = take (k * 1024) (fst (dl_content r, dl_reads_ok r))" "length ws = k"
    by blast
  have "download_audio r tmp d =
      (Inl ClientPayloadError, ws, d\<lparr>files := (files d)(tmp \<mapsto> take (k * 1024) (dl_content r))\<rparr>)"
    using assms(1) by (simp add: download_audio_def run)
  with rest show ?thesis by auto
qed

text \<open>
  C7, as stated, fails: when the connection breaks after the first 1024 of 1025 bytes,
  \<open>download_audio\<close> raises, and the temporary file it created, with the 1024 bytes
  written, is still on the disk.
\<close>

theorem download_audio_leaves_partial_file:
  "files empty_disk ''/tmp/tmpk3.mp3'' = None
   \<and> fst (download_audio broken_download ''/tmp/tmpk3.mp3'' empty_disk) = Inl ClientPayloadError
   \<and> files (snd (snd (download_audio broken_download ''/tmp/tmpk3.mp3'' empty_disk))) ''/tmp/tmpk3.mp3''
       = Some (replicate 1024 (CHR ''a''))"
proof -
  have "dl_status broken_download = 200" "dl_reads_ok broken_download = Some 1"
    "1 * 1024 < length (dl_content broken_download)"
    by (simp_all add: broken_download_def)
  from download_audio_interrupted [OF this, of "''/tmp/tmpk3.mp3''" empty_disk]
  show ?thesis
    by (auto simp add: broken_download_def empty_disk_def)
qed

text \<open>
  C7, amended. \<open>download_audio\<close> refuses a response whose status is not 200 without
  creating a file. Otherwise it streams the body into the temporary file \<open>tmp\<close> that
  \<^verbatim>\<open>mkstemp\<close> created, in chunks of at most 1024 bytes, and returns \<open>tmp\<close>. It has no
  handler: when a read fails after \<open>k\<close> full chunks of an unfinished body, the
  exception of the read propagates and the file stays on the disk with the \<open>k\<close> chunks
  written.
\<close>

theorem download_audio_streams_without_cleanup:
  "(dl_status r \<noteq> 200 \<longrightarrow>
      download_audio r tmp d = (Inl (Exception (''Failed to download audio: '' @ dl_text r)), [], d))
   \<and> (dl_status ok = 200 \<and> dl_reads_ok ok = None \<longrightarrow>
      fst (download_audio ok tmp d) = Inr tmp
      \<and> concat (fst (snd (download_audio ok tmp d))) = dl_content ok
      \<and> (\<forall>c\<in>set (fst (snd (download_audio ok tmp d))). c \<noteq> [] \<and> length c \<le> 1024)
      \<and> snd (snd (download_audio ok tmp d)) = d\<lparr>files := (files d)(tmp \<mapsto> dl_content ok)\<rparr>)
   \<and> (dl_status brk = 200 \<and> dl_reads_ok brk = Some k \<and> k * 1024 < length (dl_content brk) \<longrightarrow>
      fst (download_audio brk tmp d) = Inl ClientPayloadError
      \<and> snd (snd (download_audio brk tmp d)) =
          d\<lparr>files := (files d)(tmp \<mapsto> take (k * 1024) (dl_content brk))\<rparr>)"
proof (intro conjI impI)
  assume "dl_status r \<noteq> 200"
  then show "download_audio r tmp d = (Inl (Exception (''Failed to download audio: '' @ dl_text r)), [], d)"
    by (rule download_audio_rejected)
next
  assume h: "dl_status ok = 200 \<and> dl_reads_ok ok = None"
  then obtain ws where run: "download_audio ok tmp d = (Inr tmp, ws, d\<lparr>files := (files d)(tmp \<mapsto> dl_content ok)\<rparr>)"
    and ws: "concat ws = dl_content ok" "\<forall>c\<in>set ws. c \<noteq> [] \<and> length c \<le> 1024"
    using download_audio_complete [of ok tmp d] by blast
  show "fst (download_audio ok tmp d) = Inr tmp"
    by (simp add: run)
  show "concat (fst (snd (download_audio ok tmp d))) = dl_content ok"
    by (simp add: run ws)
  show "\<forall>c\<in>set (fst (snd (download_audio ok tmp d))). c \<noteq> [] \<and> length c \<le> 1024"
    using ws(2) by (simp add: run)
  show "snd (snd (download_audio ok tmp d)) = d\<lparr>files := (files d)(tmp \<mapsto> dl_content ok)\<rparr>"
    by (simp add: run)
next
  assume h: "dl_status brk = 200 \<and> dl_reads_ok brk = Some k \<and> k * 1024 < length (dl_content brk)"
  then obtain ws where run: "download_audio brk tmp d =
      (Inl ClientPayloadError, ws, d\<lparr>files := (files d)(tmp \<mapsto> take (k * 1024) (dl_content brk))\<rparr>)"
    using download_audio_interrupted [of brk k tmp d] by blast
  show "fst (download_audio brk tmp d) = Inl ClientPayloadError"
    by (simp add: run)
  show "snd (snd (download_audio brk tmp d)) =
      d\<lparr>files := (files d)(tmp \<mapsto> take (k * 1024) (dl_content brk))\<rparr>"
    by (simp add: run)
qed

theorem download_audio_streams_without_cleanup_witness:
  "download_audio failed_download ''/tmp/tmpk3.mp3'' empty_disk =
     (Inl (Exception ''Failed to download audio: Not Found''), [], empty_disk)
   \<and> fst (download_audio small_download ''/tmp/tmpk3.mp3'' empty_disk) = Inr ''/tmp/tmpk3.mp3''
   \<and> files (snd (snd (download_audio small_download ''/tmp/tmpk3.mp3'' empty_disk))) ''/tmp/tmpk3.mp3''
       = Some ''ID3abc''
   \<and> fst (download_audio broken_download ''/tmp/tmpk3.mp3'' empty_disk) = Inl ClientPayloadError
   \<and> files (snd (snd (download_audio broken_download ''/tmp/tmpk3.mp3'' empty_disk))) ''/tmp/tmpk3.mp3''
       = Some (replicate 1024 (CHR ''a''))"
proof -
  have a: "dl_status failed_download \<noteq> 200"
    by (simp add: failed_download_def)
  have b: "dl_status small_download = 200 \<and> dl_reads_ok small_download = None"
    by (simp add: small_download_def)
  have c: "dl_status broken_download = 200 \<and> dl_reads_ok broken_download = Some 1
      \<and> 1 * 1024 < length (dl_content broken_download)"
    by (simp add: broken_download_def)
  show ?thesis
    using download_audio_streams_without_cleanup
      [of failed_download "''/tmp/tmpk3.mp3''" empty_disk small_download broken_download 1]
      a b c
    by (simp add: failed_download_def small_download_def broken_download_def)
qed

end
